theory Spec2Isabelle
  imports Complex_Main
begin

section \<open>The host platform as the module sees it\<close>

text \<open>
  \<^verbatim>\<open>src/lib/scroll-animation.ts\<close> is a thin layer over three capabilities of the host:
  the globals \<^verbatim>\<open>window\<close> and \<^verbatim>\<open>IntersectionObserver\<close>, the document's selector engine
  (\<^verbatim>\<open>document.querySelectorAll\<close>) and the class list of each element. Elements and
  observer instances are identified by natural numbers; an observer instance is its index
  in the list of observers constructed so far, so two instances are never confused.
\<close>

type_synonym element = nat
type_synonym handle = nat
type_synonym number = real

text \<open>An exception of the platform: its name (\<^verbatim>\<open>SyntaxError\<close>, ...) and its message.\<close>

datatype error = DOMException string string

text \<open>
  What \<^verbatim>\<open>typeof window\<close> and \<^verbatim>\<open>typeof IntersectionObserver\<close> answer during one call.
  Globals are ambient: the source reads them afresh on every call. The global
  \<^verbatim>\<open>document\<close> is taken to exist wherever \<^verbatim>\<open>window\<close> does (it is \<^verbatim>\<open>window.document\<close>);
  the source tests \<^verbatim>\<open>window\<close> only.
\<close>

record env =
  window_defined :: bool
  IntersectionObserver_defined :: bool

text \<open>\<^verbatim>\<open>IntersectionObserverInit\<close>, the options object handed to the constructor.\<close>

record IntersectionObserverInit =
  init_threshold :: number
  init_rootMargin :: string

text \<open>
  An \<^verbatim>\<open>IntersectionObserver\<close> instance: the options it was constructed with, the
  variables \<^verbatim>\<open>visibleClass\<close> and \<^verbatim>\<open>once\<close> its callback closes over, and the
  elements it currently observes (the platform's list of observation targets).
\<close>

record IntersectionObserver =
  init :: IntersectionObserverInit
  cb_visibleClass :: string
  cb_once :: bool
  targets :: "element list"

text \<open>\<^verbatim>\<open>IntersectionObserverEntry\<close>, as far as the callback reads it.\<close>

record entry =
  target :: element
  isIntersecting :: bool

text \<open>The mutable state: every element's class list and every observer constructed.\<close>

record page =
  classList :: "element \<Rightarrow> string list"
  observers :: "IntersectionObserver list"

text \<open>
  The selector engine is a parameter: given the class lists of the current document and
  a selector it answers the matching elements, or raises.
\<close>

type_synonym selector_engine = "(element \<Rightarrow> string list) \<Rightarrow> string \<Rightarrow> error + element list"

text \<open>
  \<^verbatim>\<open>DOMTokenList.add\<close> first validates the token: the empty string raises a
  \<^verbatim>\<open>SyntaxError\<close>, a token containing ASCII whitespace (tab, line feed, form feed,
  carriage return, space) an \<^verbatim>\<open>InvalidCharacterError\<close>, and the class list is left as
  it was. A valid token is appended unless it is already there.
\<close>

definition ascii_whitespace :: "char \<Rightarrow> bool" where
  "ascii_whitespace ch =
     (ch = CHR 0x09 \<or> ch = CHR 0x0A \<or> ch = CHR 0x0C \<or> ch = CHR 0x0D \<or> ch = CHR 0x20)"

definition valid_token :: "string \<Rightarrow> bool" where
  "valid_token c = (c \<noteq> [] \<and> (\<forall>ch \<in> set c. \<not> ascii_whitespace ch))"

definition append_token :: "string \<Rightarrow> string list \<Rightarrow> string list" where
  "append_token c cs = (if c \<in> set cs then cs else cs @ [c])"

definition token_add :: "string \<Rightarrow> string list \<Rightarrow> error + string list" where
  "token_add c cs =
     (if c = [] then Inl (DOMException ''SyntaxError'' c)
      else if \<exists>ch \<in> set c. ascii_whitespace ch then Inl (DOMException ''InvalidCharacterError'' c)
      else Inr (append_token c cs))"

definition classList_add :: "element \<Rightarrow> string \<Rightarrow> page \<Rightarrow> error + page" where
  "classList_add el c p =
     (case token_add c (classList p el) of
        Inl err \<Rightarrow> Inl err
      | Inr cs \<Rightarrow> Inr (p\<lparr>classList := (classList p)(el := cs)\<rparr>))"

text \<open>
  The constructor is modelled on the options it accepts (a threshold within 0 and 1 and a
  root margin it can parse), which is the configuration the module is described for.
\<close>

text \<open>\<^verbatim>\<open>new IntersectionObserver(callback, options)\<close>: a fresh instance observing nothing.\<close>

definition new_IntersectionObserver ::
  "string \<Rightarrow> bool \<Rightarrow> IntersectionObserverInit \<Rightarrow> page \<Rightarrow> handle \<times> page" where
  "new_IntersectionObserver vc on observerOptions p =
     (length (observers p),
      p\<lparr>observers := observers p @
           [\<lparr>init = observerOptions, cb_visibleClass = vc, cb_once = on, targets = []\<rparr>]\<rparr>)"

text \<open>\<^verbatim>\<open>observer.observe(el)\<close> and \<^verbatim>\<open>observer.unobserve(el)\<close>.\<close>

definition observe :: "handle \<Rightarrow> element \<Rightarrow> page \<Rightarrow> page" where
  "observe h el p =
     (if h < length (observers p)
      then p\<lparr>observers := (observers p)
             [h := (observers p ! h)\<lparr>targets := (if el \<in> set (targets (observers p ! h))
                                                  then targets (observers p ! h)
                                                  else targets (observers p ! h) @ [el])\<rparr>]\<rparr>
      else p)"

definition unobserve :: "handle \<Rightarrow> element \<Rightarrow> page \<Rightarrow> page" where
  "unobserve h el p =
     (if h < length (observers p)
      then p\<lparr>observers := (observers p)
             [h := (observers p ! h)\<lparr>targets := removeAll el (targets (observers p ! h))\<rparr>]\<rparr>
      else p)"

section \<open>scroll-animation.ts\<close>

text \<open>\<^verbatim>\<open>ScrollAnimationOptions\<close>: every field is optional.\<close>

record ScrollAnimationOptions =
  threshold :: "number option"
  rootMargin :: "string option"
  visibleClass :: "string option"
  once :: "bool option"

text \<open>The default argument \<^verbatim>\<open>options = {}\<close>.\<close>

definition no_options :: ScrollAnimationOptions where
  "no_options = \<lparr>threshold = None, rootMargin = None, visibleClass = None, once = None\<rparr>"

text \<open>
  The destructuring \<^verbatim>\<open>const { threshold = 0.2, rootMargin = '0px 0px -50px 0px',
  visibleClass = 'visible', once = true } = options\<close> (lines 41-46).
\<close>

record bindings =
  the_threshold :: number
  the_rootMargin :: string
  the_visibleClass :: string
  the_once :: bool

definition destructure :: "ScrollAnimationOptions \<Rightarrow> bindings" where
  "destructure opts =
     \<lparr>the_threshold = (case threshold opts of None \<Rightarrow> 0.2 | Some v \<Rightarrow> v),
      the_rootMargin = (case rootMargin opts of None \<Rightarrow> ''0px 0px -50px 0px'' | Some v \<Rightarrow> v),
      the_visibleClass = (case visibleClass opts of None \<Rightarrow> ''visible'' | Some v \<Rightarrow> v),
      the_once = (case once opts of None \<Rightarrow> True | Some v \<Rightarrow> v)\<rparr>"

text \<open>
  The body of the arrow function passed to \<^verbatim>\<open>entries.forEach\<close> (lines 60-67), with the
  variables it closes over as arguments. The result is the exception raised, if any, and
  the page as the body leaves it: when \<^verbatim>\<open>classList.add\<close> raises at line 61, nothing has
  been changed and line 65 is not reached.
\<close>

definition on_entry :: "string \<Rightarrow> bool \<Rightarrow> handle \<Rightarrow> entry \<Rightarrow> page \<Rightarrow> error option \<times> page" where
  "on_entry vc on observer e p =
     (if isIntersecting e
      then (case classList_add (target e) vc p of
              Inl err \<Rightarrow> (Some err, p)
            | Inr p1 \<Rightarrow> (None, if on then unobserve observer (target e) p1 else p1))
      else (None, p))"

text \<open>
  The observer's callback (lines 58-69): \<^verbatim>\<open>entries.forEach\<close> in order. An exception
  raised for one entry ends the loop; what earlier entries did stays done.
\<close>

fun callback :: "string \<Rightarrow> bool \<Rightarrow> handle \<Rightarrow> entry list \<Rightarrow> page \<Rightarrow> error option \<times> page" where
  "callback vc on observer [] p = (None, p)"
| "callback vc on observer (e # es) p =
     (case on_entry vc on observer e p of
        (Some err, p') \<Rightarrow> (Some err, p')
      | (None, p') \<Rightarrow> callback vc on observer es p')"

text \<open>
  \<^verbatim>\<open>observeScrollAnimations(selector, options)\<close> (lines 37-78). The result is the raised
  exception or the returned value (\<open>None\<close> is \<^verbatim>\<open>null\<close>), together with the page as the
  call leaves it.
\<close>

definition observeScrollAnimations ::
  "env \<Rightarrow> selector_engine \<Rightarrow> page \<Rightarrow> string \<Rightarrow> ScrollAnimationOptions
     \<Rightarrow> (error + handle option) \<times> page" where
  "observeScrollAnimations ev qsa p sel opts =
     (let b = destructure opts
      in if \<not> window_defined ev \<or> \<not> IntersectionObserver_defined ev
         then (Inr None, p)
         else (let observerOptions =
                     \<lparr>init_threshold = the_threshold b, init_rootMargin = the_rootMargin b\<rparr>;
                   (observer, p1) =
                     new_IntersectionObserver (the_visibleClass b) (the_once b) observerOptions p
               in case qsa (classList p1) sel of
                    Inl err \<Rightarrow> (Inl err, p1)
                  | Inr elements \<Rightarrow> (Inr (Some observer), fold (observe observer) elements p1)))"

text \<open>
  One element of the array given to \<^verbatim>\<open>observeMultiple\<close>; \<^verbatim>\<open>options\<close> may be left out.
\<close>

record config =
  selector :: string
  options :: "ScrollAnimationOptions option"

text \<open>
  The default parameter \<^verbatim>\<open>options: ScrollAnimationOptions = {}\<close> of
  \<^verbatim>\<open>observeScrollAnimations\<close>: an argument left \<^verbatim>\<open>undefined\<close> becomes the empty object.
\<close>

definition options_argument :: "ScrollAnimationOptions option \<Rightarrow> ScrollAnimationOptions" where
  "options_argument given = (case given of None \<Rightarrow> no_options | Some opts \<Rightarrow> opts)"

text \<open>
  \<^verbatim>\<open>configs.map(({ selector, options }) => observeScrollAnimations(selector, options))\<close>:
  the calls run in array order on the page the earlier calls left, and an exception ends
  the map. Each entry is paired with the globals in force while its call runs (in a
  browser they are the same for all of them; a test double may withdraw
  \<^verbatim>\<open>IntersectionObserver\<close> for a single call).
\<close>

fun map_observe ::
  "selector_engine \<Rightarrow> page \<Rightarrow> (env \<times> config) list \<Rightarrow> (error + handle option list) \<times> page" where
  "map_observe qsa p [] = (Inr [], p)"
| "map_observe qsa p ((ev, c) # rest) =
     (case observeScrollAnimations ev qsa p (selector c) (options_argument (options c)) of
        (Inl err, p') \<Rightarrow> (Inl err, p')
      | (Inr r, p') \<Rightarrow>
          (case map_observe qsa p' rest of
             (Inl err, p'') \<Rightarrow> (Inl err, p'')
           | (Inr rs, p'') \<Rightarrow> (Inr (r # rs), p'')))"


section \<open>Delivery of observation ticks\<close>

text \<open>
  The platform reports entries only for the elements an observer observes when the tick
  is delivered, and runs the observer's own callback on them. An exception that escapes
  the callback is reported by the platform and the page stays as the callback left it.
\<close>

definition reported :: "handle \<Rightarrow> page \<Rightarrow> entry list \<Rightarrow> entry list" where
  "reported h p es =
     (if h < length (observers p)
      then filter (\<lambda>e. target e \<in> set (targets (observers p ! h))) es
      else [])"

definition tick :: "handle \<Rightarrow> entry list \<Rightarrow> page \<Rightarrow> page" where
  "tick h es p =
     (if h < length (observers p)
      then snd (callback (cb_visibleClass (observers p ! h)) (cb_once (observers p ! h)) h
                  (reported h p es) p)
      else p)"

section \<open>A small document for concrete runs\<close>

definition browser :: env where
  "browser = \<lparr>window_defined = True, IntersectionObserver_defined = True\<rparr>"

definition server :: env where
  "server = \<lparr>window_defined = False, IntersectionObserver_defined = False\<rparr>"

definition no_observer_api :: env where
  "no_observer_api = \<lparr>window_defined = True, IntersectionObserver_defined = False\<rparr>"

text \<open>
  A selector engine over the elements 0, 1 and 2: \<^verbatim>\<open>*\<close> matches all three, a class
  selector \<^verbatim>\<open>.c\<close> those carrying the class \<^verbatim>\<open>c\<close>, and anything else is malformed.
\<close>

definition demo_qsa :: selector_engine where
  "demo_qsa doc sel =
     (if sel = ''*'' then Inr [0, 1, 2]
      else case sel of
             [] \<Rightarrow> Inl (DOMException ''SyntaxError'' sel)
           | ch # cls \<Rightarrow>
               if ch = CHR ''.'' \<and> cls \<noteq> [] \<and> CHR '' '' \<notin> set cls
               then Inr (filter (\<lambda>el. cls \<in> set (doc el)) [0, 1, 2])
               else Inl (DOMException ''SyntaxError'' sel))"

definition demo_page :: page where
  "demo_page =
     \<lparr>classList = (\<lambda>el. if el = 0 then [''fade''] else if el = 1 then [''fade'', ''big''] else []),
      observers = []\<rparr>"

section \<open>Notions used in the statements\<close>

text \<open>
  The instance that \<^verbatim>\<open>new IntersectionObserver\<close> yields when it is called from
  \<^verbatim>\<open>observeScrollAnimations\<close> with the given options.
\<close>

definition fresh_observer :: "ScrollAnimationOptions \<Rightarrow> IntersectionObserver" where
  "fresh_observer opts =
     \<lparr>init = \<lparr>init_threshold = the_threshold (destructure opts),
               init_rootMargin = the_rootMargin (destructure opts)\<rparr>,
      cb_visibleClass = the_visibleClass (destructure opts),
      cb_once = the_once (destructure opts),
      targets = []\<rparr>"

text \<open>The targets of the intersecting entries of a batch.\<close>

definition hit :: "entry list \<Rightarrow> element set" where
  "hit es = target ` {e \<in> set es. isIntersecting e}"

text \<open>
  What can happen on a page once a watcher exists: the platform delivers a tick to some
  observer, or \<^verbatim>\<open>observeScrollAnimations\<close> is called again. A history is any sequence
  of such events.
\<close>

datatype event = Tick handle "entry list" | Watch env string ScrollAnimationOptions

fun step :: "selector_engine \<Rightarrow> event \<Rightarrow> page \<Rightarrow> page" where
  "step qsa (Tick h es) p = tick h es p"
| "step qsa (Watch ev sel opts) p = snd (observeScrollAnimations ev qsa p sel opts)"

definition run :: "selector_engine \<Rightarrow> event list \<Rightarrow> page \<Rightarrow> page" where
  "run qsa history p = fold (step qsa) history p"

text \<open>Options, watchers, entries and a batch of calls on the small document.\<close>

definition demo_options :: ScrollAnimationOptions where
  "demo_options = \<lparr>threshold = Some 0.5, rootMargin = None, visibleClass = Some ''shown'', once = None\<rparr>"

definition demo_watched :: page where
  "demo_watched = snd (observeScrollAnimations browser demo_qsa demo_page ''.fade'' no_options)"

definition demo_entries :: "entry list" where
  "demo_entries = [\<lparr>target = 0, isIntersecting = True\<rparr>, \<lparr>target = 1, isIntersecting = False\<rparr>]"

definition demo_repeat :: page where
  "demo_repeat =
     snd (observeScrollAnimations browser demo_qsa demo_page ''.fade''
            (no_options\<lparr>once := Some False\<rparr>))"

definition shouting_options :: ScrollAnimationOptions where
  "shouting_options =
     \<lparr>threshold = None, rootMargin = None, visibleClass = Some ''fade in'', once = None\<rparr>"

definition demo_shouting :: page where
  "demo_shouting = snd (observeScrollAnimations browser demo_qsa demo_page ''.fade'' shouting_options)"

definition demo_shouting_repeat :: page where
  "demo_shouting_repeat =
     snd (observeScrollAnimations browser demo_qsa demo_page ''.fade''
            (shouting_options\<lparr>once := Some False\<rparr>))"


section \<open>Registration\<close>

lemma observe_classList: "classList (observe h el p) = classList p"
  by (simp add: observe_def)

lemma observe_length: "length (observers (observe h el p)) = length (observers p)"
  by (simp add: observe_def)

lemma observe_other: "k \<noteq> h \<Longrightarrow> observers (observe h el p) ! k = observers p ! k"
  by (simp add: observe_def)

lemma observe_same:
  "h < length (observers p) \<Longrightarrow>
   observers (observe h el p) ! h =
     (observers p ! h)\<lparr>targets := (if el \<in> set (targets (observers p ! h))
                                    then targets (observers p ! h)
                                    else targets (observers p ! h) @ [el])\<rparr>"
  by (simp add: observe_def)

lemma fold_observe_classList: "classList (fold (observe h) els p) = classList p"
  by (induction els arbitrary: p) (simp_all add: observe_classList)

lemma fold_observe_length: "length (observers (fold (observe h) els p)) = length (observers p)"
  by (induction els arbitrary: p) (simp_all add: observe_length)

lemma fold_observe_other: "k \<noteq> h \<Longrightarrow> observers (fold (observe h) els p) ! k = observers p ! k"
  by (induction els arbitrary: p) (simp_all add: observe_other)


lemma fold_observe_closure:
  "h < length (observers p) \<Longrightarrow>
   init (observers (fold (observe h) els p) ! h) = init (observers p ! h)
   \<and> cb_visibleClass (observers (fold (observe h) els p) ! h) = cb_visibleClass (observers p ! h)
   \<and> cb_once (observers (fold (observe h) els p) ! h) = cb_once (observers p ! h)"
  by (induction els arbitrary: p) (simp_all add: observe_same observe_length)

lemma observeScrollAnimations_supported:
  assumes "window_defined ev" "IntersectionObserver_defined ev"
  shows "observeScrollAnimations ev qsa p sel opts =
           (case qsa (classList p) sel of
              Inl err \<Rightarrow> (Inl err, p\<lparr>observers := observers p @ [fresh_observer opts]\<rparr>)
            | Inr els \<Rightarrow>
                (Inr (Some (length (observers p))),
                 fold (observe (length (observers p))) els
                   (p\<lparr>observers := observers p @ [fresh_observer opts]\<rparr>)))"
  using assms
  by (simp add: observeScrollAnimations_def new_IntersectionObserver_def fresh_observer_def Let_def
        split: sum.split)

lemma observeScrollAnimations_unsupported:
  "\<not> window_defined ev \<or> \<not> IntersectionObserver_defined ev \<Longrightarrow>
   observeScrollAnimations ev qsa p sel opts = (Inr None, p)"
  by (auto simp add: observeScrollAnimations_def)

lemma observeScrollAnimations_classList:
  "classList (snd (observeScrollAnimations ev qsa p sel opts)) = classList p"
proof (cases "window_defined ev \<and> IntersectionObserver_defined ev")
  case True
  then show ?thesis
    by (simp add: observeScrollAnimations_supported fold_observe_classList split: sum.split)
next
  case False
  then show ?thesis by (simp add: observeScrollAnimations_unsupported)
qed

lemma observeScrollAnimations_length:
  "length (observers (snd (observeScrollAnimations ev qsa p sel opts))) =
     (if window_defined ev \<and> IntersectionObserver_defined ev
      then Suc (length (observers p)) else length (observers p))"
  by (auto simp add: observeScrollAnimations_supported observeScrollAnimations_unsupported
        fold_observe_length split: sum.split)

lemma observeScrollAnimations_older:
  assumes "k < length (observers p)"
  shows "observers (snd (observeScrollAnimations ev qsa p sel opts)) ! k = observers p ! k"
proof (cases "window_defined ev \<and> IntersectionObserver_defined ev")
  case True
  with assms show ?thesis
    by (simp add: observeScrollAnimations_supported fold_observe_other nth_append split: sum.split)
next
  case False
  then show ?thesis by (simp add: observeScrollAnimations_unsupported)
qed


section \<open>The callback\<close>

lemma hit_Nil: "hit [] = {}"
  by (simp add: hit_def)

lemma hit_Cons: "hit (e # es) = (if isIntersecting e then insert (target e) (hit es) else hit es)"
  by (auto simp add: hit_def)

lemma append_token_idem: "append_token c (append_token c cs) = append_token c cs"
  by (simp add: append_token_def)

lemma append_token_present: "c \<in> set cs \<Longrightarrow> append_token c cs = cs"
  by (simp add: append_token_def)

lemma append_token_set: "set (append_token c cs) = insert c (set cs)"
  by (auto simp add: append_token_def)

lemma token_add_valid: "valid_token c \<Longrightarrow> token_add c cs = Inr (append_token c cs)"
  by (simp add: token_add_def valid_token_def)

lemma token_add_invalid: "\<not> valid_token c \<Longrightarrow> \<exists>err. token_add c cs = Inl err"
  by (auto simp add: token_add_def valid_token_def)

lemma classList_add_valid:
  "valid_token c \<Longrightarrow>
   classList_add el c p = Inr (p\<lparr>classList := (classList p)(el := append_token c (classList p el))\<rparr>)"
  by (simp add: classList_add_def token_add_valid)

lemma classList_add_invalid: "\<not> valid_token c \<Longrightarrow> \<exists>err. classList_add el c p = Inl err"
  using token_add_invalid [of c "classList p el"] by (auto simp add: classList_add_def)

lemma unobserve_classList: "classList (unobserve h el p) = classList p"
  by (simp add: unobserve_def)

lemma unobserve_length: "length (observers (unobserve h el p)) = length (observers p)"
  by (simp add: unobserve_def)

lemma unobserve_other: "k \<noteq> h \<Longrightarrow> observers (unobserve h el p) ! k = observers p ! k"
  by (simp add: unobserve_def)

lemma unobserve_same:
  "h < length (observers p) \<Longrightarrow>
   observers (unobserve h el p) ! h =
     (observers p ! h)\<lparr>targets := removeAll el (targets (observers p ! h))\<rparr>"
  by (simp add: unobserve_def)

lemma on_entry_quiet: "\<not> isIntersecting e \<Longrightarrow> on_entry vc on h e p = (None, p)"
  by (simp add: on_entry_def)

lemma on_entry_valid:
  "valid_token vc \<Longrightarrow> isIntersecting e \<Longrightarrow>
   on_entry vc on h e p =
     (None,
      if on
      then unobserve h (target e)
             (p\<lparr>classList := (classList p)(target e := append_token vc (classList p (target e)))\<rparr>)
      else p\<lparr>classList := (classList p)(target e := append_token vc (classList p (target e)))\<rparr>)"
  by (simp add: on_entry_def classList_add_valid)

lemma on_entry_invalid:
  "\<not> valid_token vc \<Longrightarrow> isIntersecting e \<Longrightarrow> \<exists>err. on_entry vc on h e p = (Some err, p)"
  using classList_add_invalid [of vc "target e" p] by (auto simp add: on_entry_def)

lemma on_entry_classList:
  "classList (snd (on_entry vc on h e p)) el =
     (if isIntersecting e \<and> el = target e \<and> valid_token vc
      then append_token vc (classList p el) else classList p el)"
proof (cases "isIntersecting e")
  case False
  then show ?thesis by (simp add: on_entry_quiet)
next
  case True
  show ?thesis
  proof (cases "valid_token vc")
    case True
    with \<open>isIntersecting e\<close> show ?thesis
      by (simp add: on_entry_valid unobserve_classList)
  next
    case False
    with \<open>isIntersecting e\<close> on_entry_invalid [of vc e on h p] show ?thesis
      by auto
  qed
qed

lemma on_entry_observers:
  "observers (snd (on_entry vc on h e p)) =
     (if isIntersecting e \<and> valid_token vc \<and> on
      then observers (unobserve h (target e) p) else observers p)"
proof (cases "isIntersecting e")
  case False
  then show ?thesis by (simp add: on_entry_quiet)
next
  case True
  show ?thesis
  proof (cases "valid_token vc")
    case True
    with \<open>isIntersecting e\<close> show ?thesis
      by (simp add: on_entry_valid unobserve_def)
  next
    case False
    with \<open>isIntersecting e\<close> on_entry_invalid [of vc e on h p] show ?thesis
      by auto
  qed
qed

lemma on_entry_raises:
  "(fst (on_entry vc on h e p) = None) = (isIntersecting e \<longrightarrow> valid_token vc)"
proof (cases "isIntersecting e")
  case False
  then show ?thesis by (simp add: on_entry_quiet)
next
  case True
  show ?thesis
  proof (cases "valid_token vc")
    case True
    with \<open>isIntersecting e\<close> show ?thesis by (simp add: on_entry_valid)
  next
    case False
    with \<open>isIntersecting e\<close> on_entry_invalid [of vc e on h p] show ?thesis
      by auto
  qed
qed

lemma on_entry_length: "length (observers (snd (on_entry vc on h e p))) = length (observers p)"
  by (simp add: on_entry_observers unobserve_length)

lemma on_entry_other: "k \<noteq> h \<Longrightarrow> observers (snd (on_entry vc on h e p)) ! k = observers p ! k"
  by (simp add: on_entry_observers unobserve_other)

lemma on_entry_keep: "\<not> on \<Longrightarrow> observers (snd (on_entry vc on h e p)) = observers p"
  by (simp add: on_entry_observers)

lemma on_entry_same:
  "h < length (observers p) \<Longrightarrow>
   observers (snd (on_entry vc on h e p)) ! h =
     (if isIntersecting e \<and> valid_token vc \<and> on
      then (observers p ! h)\<lparr>targets := removeAll (target e) (targets (observers p ! h))\<rparr>
      else observers p ! h)"
  by (simp add: on_entry_observers unobserve_same)

lemma callback_Cons_ok:
  "fst (on_entry vc on h e p) = None \<Longrightarrow>
   callback vc on h (e # es) p = callback vc on h es (snd (on_entry vc on h e p))"
  by (cases "on_entry vc on h e p") simp

lemma callback_Cons_raise:
  "fst (on_entry vc on h e p) \<noteq> None \<Longrightarrow>
   callback vc on h (e # es) p = on_entry vc on h e p"
  by (cases "on_entry vc on h e p") auto

lemma callback_invalid:
  "\<not> valid_token vc \<Longrightarrow> snd (callback vc on h es p) = p"
proof (induction es arbitrary: p)
  case Nil
  show ?case by simp
next
  case (Cons e es)
  show ?case
  proof (cases "isIntersecting e")
    case False
    with Cons show ?thesis by (simp add: on_entry_quiet)
  next
    case True
    with Cons.prems on_entry_invalid [of vc e on h p] show ?thesis by auto
  qed
qed

lemma callback_valid_returns: "valid_token vc \<Longrightarrow> fst (callback vc on h es p) = None"
proof (induction es arbitrary: p)
  case Nil
  show ?case by simp
next
  case (Cons e es)
  have "fst (on_entry vc on h e p) = None"
    using Cons.prems by (simp add: on_entry_raises)
  with Cons show ?case by (simp add: callback_Cons_ok del: callback.simps)
qed

lemma callback_raises:
  "(fst (callback vc on h es p) = None) = (valid_token vc \<or> hit es = {})"
proof (cases "valid_token vc")
  case True
  then show ?thesis by (simp add: callback_valid_returns)
next
  case False
  have "(fst (callback vc on h es p) = None) = (hit es = {})"
  proof (induction es arbitrary: p)
    case Nil
    show ?case by (simp add: hit_Nil)
  next
    case (Cons e es)
    show ?case
    proof (cases "isIntersecting e")
      case False
      with Cons show ?thesis by (simp add: on_entry_quiet hit_Cons)
    next
      case True
      with \<open>\<not> valid_token vc\<close> on_entry_invalid [of vc e on h p] show ?thesis
        by (auto simp add: hit_Cons)
    qed
  qed
  with False show ?thesis by simp
qed

lemma callback_classList:
  "classList (snd (callback vc on h es p)) el =
     (if valid_token vc \<and> el \<in> hit es then append_token vc (classList p el) else classList p el)"
proof (cases "valid_token vc")
  case False
  then show ?thesis by (simp add: callback_invalid)
next
  case True
  have "classList (snd (callback vc on h es p)) el =
          (if el \<in> hit es then append_token vc (classList p el) else classList p el)"
  proof (induction es arbitrary: p)
    case Nil
    show ?case by (simp add: hit_Nil)
  next
    case (Cons e es)
    have "fst (on_entry vc on h e p) = None"
      using True by (simp add: on_entry_raises)
    with Cons True show ?case
      by (simp add: callback_Cons_ok hit_Cons on_entry_classList append_token_idem del: callback.simps)
  qed
  with True show ?thesis by simp
qed

lemma callback_length: "length (observers (snd (callback vc on h es p))) = length (observers p)"
proof (induction es arbitrary: p)
  case Nil
  show ?case by simp
next
  case (Cons e es)
  show ?case
  proof (cases "fst (on_entry vc on h e p) = None")
    case True
    with Cons show ?thesis by (simp add: callback_Cons_ok on_entry_length del: callback.simps)
  next
    case False
    then show ?thesis by (simp add: callback_Cons_raise on_entry_length del: callback.simps)
  qed
qed

lemma callback_other: "k \<noteq> h \<Longrightarrow> observers (snd (callback vc on h es p)) ! k = observers p ! k"
proof (induction es arbitrary: p)
  case Nil
  show ?case by simp
next
  case (Cons e es)
  show ?case
  proof (cases "fst (on_entry vc on h e p) = None")
    case True
    with Cons show ?thesis by (simp add: callback_Cons_ok on_entry_other del: callback.simps)
  next
    case False
    with Cons.prems show ?thesis by (simp add: callback_Cons_raise on_entry_other del: callback.simps)
  qed
qed

lemma callback_keep: "\<not> on \<Longrightarrow> observers (snd (callback vc on h es p)) = observers p"
proof (induction es arbitrary: p)
  case Nil
  show ?case by simp
next
  case (Cons e es)
  show ?case
  proof (cases "fst (on_entry vc on h e p) = None")
    case True
    with Cons show ?thesis by (simp add: callback_Cons_ok on_entry_keep del: callback.simps)
  next
    case False
    with Cons.prems show ?thesis by (simp add: callback_Cons_raise on_entry_keep del: callback.simps)
  qed
qed

lemma removeAll_as_filter: "removeAll a xs = filter (\<lambda>x. x \<noteq> a) xs"
  by (induction xs) simp_all

lemma callback_same:
  "h < length (observers p) \<Longrightarrow>
   observers (snd (callback vc on h es p)) ! h =
     (if on \<and> valid_token vc
      then (observers p ! h)\<lparr>targets := filter (\<lambda>t. t \<notin> hit es) (targets (observers p ! h))\<rparr>
      else observers p ! h)"
proof (cases "valid_token vc")
  case False
  then show ?thesis by (simp add: callback_invalid)
next
  case True
  assume "h < length (observers p)"
  then have "observers (snd (callback vc on h es p)) ! h =
     (if on
      then (observers p ! h)\<lparr>targets := filter (\<lambda>t. t \<notin> hit es) (targets (observers p ! h))\<rparr>
      else observers p ! h)"
  proof (induction es arbitrary: p)
    case Nil
    then show ?case by (simp add: hit_Nil)
  next
    case (Cons e es)
    have ok: "fst (on_entry vc on h e p) = None"
      using True by (simp add: on_entry_raises)
    have "h < length (observers (snd (on_entry vc on h e p)))"
      using Cons.prems by (simp add: on_entry_length)
    from Cons.IH [OF this] Cons.prems True show ?case
      by (simp add: callback_Cons_ok [OF ok] on_entry_same hit_Cons removeAll_as_filter
            del: callback.simps)
  qed
  with True show ?thesis by simp
qed

lemma callback_no_intersecting: "hit es = {} \<Longrightarrow> callback vc on h es p = (None, p)"
proof (induction es arbitrary: p)
  case Nil
  then show ?case by simp
next
  case (Cons e es)
  then show ?case
    by (simp add: hit_Cons on_entry_quiet split: if_splits)
qed

lemma callback_filter:
  "callback vc on h (filter isIntersecting es) p = callback vc on h es p"
  by (induction es arbitrary: p) (simp_all add: on_entry_quiet split: prod.split option.split)

section \<open>Ticks and histories\<close>

lemma tick_length: "length (observers (tick h es p)) = length (observers p)"
  by (simp add: tick_def callback_length)

lemma tick_classList:
  "classList (tick h es p) el =
     (if h < length (observers p) \<and> valid_token (cb_visibleClass (observers p ! h))
         \<and> el \<in> hit (reported h p es)
      then append_token (cb_visibleClass (observers p ! h)) (classList p el)
      else classList p el)"
  by (simp add: tick_def callback_classList)

lemma tick_other: "k \<noteq> h \<Longrightarrow> observers (tick h es p) ! k = observers p ! k"
  by (simp add: tick_def callback_other)

lemma tick_same:
  "h < length (observers p) \<Longrightarrow>
   observers (tick h es p) ! h =
     (if cb_once (observers p ! h) \<and> valid_token (cb_visibleClass (observers p ! h))
      then (observers p ! h)\<lparr>targets := filter (\<lambda>t. t \<notin> hit (reported h p es))
                                            (targets (observers p ! h))\<rparr>
      else observers p ! h)"
  by (simp add: tick_def callback_same)

lemma tick_closure:
  "init (observers (tick h es p) ! k) = init (observers p ! k)
   \<and> cb_visibleClass (observers (tick h es p) ! k) = cb_visibleClass (observers p ! k)
   \<and> cb_once (observers (tick h es p) ! k) = cb_once (observers p ! k)"
proof (cases "k = h \<and> h < length (observers p)")
  case True
  then show ?thesis by (simp add: tick_same)
next
  case False
  then show ?thesis by (auto simp add: tick_other) (simp_all add: tick_def)
qed

lemma tick_targets_subset:
  "set (targets (observers (tick h es p) ! k)) \<subseteq> set (targets (observers p ! k))"
proof (cases "k = h \<and> h < length (observers p)")
  case True
  then show ?thesis by (auto simp add: tick_same)
next
  case False
  then show ?thesis by (auto simp add: tick_other) (simp_all add: tick_def)
qed

lemma tick_no_intersecting:
  assumes "\<forall>e \<in> set (reported h p es). \<not> isIntersecting e"
  shows "tick h es p = p"
proof -
  have "hit (reported h p es) = {}"
    using assms by (auto simp add: hit_def)
  then show ?thesis by (simp add: tick_def callback_no_intersecting)
qed

lemma step_length: "length (observers p) \<le> length (observers (step qsa a p))"
  by (cases a) (simp_all add: tick_length observeScrollAnimations_length)

lemma step_closure:
  assumes "k < length (observers p)"
  shows "init (observers (step qsa a p) ! k) = init (observers p ! k)
       \<and> cb_visibleClass (observers (step qsa a p) ! k) = cb_visibleClass (observers p ! k)
       \<and> cb_once (observers (step qsa a p) ! k) = cb_once (observers p ! k)"
  using assms by (cases a) (simp_all add: tick_closure observeScrollAnimations_older)

lemma step_targets_subset:
  assumes "k < length (observers p)"
  shows "set (targets (observers (step qsa a p) ! k)) \<subseteq> set (targets (observers p ! k))"
  using assms by (cases a) (simp_all add: tick_targets_subset observeScrollAnimations_older)

lemma step_classList_mono:
  "c \<in> set (classList p el) \<Longrightarrow> c \<in> set (classList (step qsa a p) el)"
  by (cases a) (simp_all add: tick_classList append_token_set observeScrollAnimations_classList)

lemma run_Nil: "run qsa [] p = p"
  by (simp add: run_def)

lemma run_Cons: "run qsa (a # history) p = run qsa history (step qsa a p)"
  by (simp add: run_def)

lemma run_length: "length (observers p) \<le> length (observers (run qsa history p))"
proof (induction history arbitrary: p)
  case Nil
  then show ?case by (simp add: run_Nil)
next
  case (Cons a history)
  have "length (observers p) \<le> length (observers (step qsa a p))" by (rule step_length)
  also have "\<dots> \<le> length (observers (run qsa history (step qsa a p)))" by (rule Cons.IH)
  finally show ?case by (simp add: run_Cons)
qed

lemma run_closure:
  assumes "k < length (observers p)"
  shows "init (observers (run qsa history p) ! k) = init (observers p ! k)
       \<and> cb_visibleClass (observers (run qsa history p) ! k) = cb_visibleClass (observers p ! k)
       \<and> cb_once (observers (run qsa history p) ! k) = cb_once (observers p ! k)"
  using assms
proof (induction history arbitrary: p)
  case Nil
  then show ?case by (simp add: run_Nil)
next
  case (Cons a history)
  have "k < length (observers (step qsa a p))"
    using Cons.prems step_length [of p qsa a] by simp
  from Cons.IH [OF this] step_closure [OF Cons.prems, of qsa a] show ?case
    by (simp add: run_Cons)
qed

lemma run_targets_subset:
  assumes "k < length (observers p)"
  shows "set (targets (observers (run qsa history p) ! k)) \<subseteq> set (targets (observers p ! k))"
  using assms
proof (induction history arbitrary: p)
  case Nil
  then show ?case by (simp add: run_Nil)
next
  case (Cons a history)
  have "k < length (observers (step qsa a p))"
    using Cons.prems step_length [of p qsa a] by simp
  from Cons.IH [OF this] step_targets_subset [OF Cons.prems, of qsa a] show ?case
    by (auto simp add: run_Cons)
qed

lemma run_classList_mono:
  "c \<in> set (classList p el) \<Longrightarrow> c \<in> set (classList (run qsa history p) el)"
  by (induction history arbitrary: p) (simp_all add: run_Nil run_Cons step_classList_mono)

lemma created_observer:
  assumes "observeScrollAnimations ev qsa p0 sel opts = (Inr (Some h), p1)"
  shows "h = length (observers p0) \<and> h < length (observers p1)
       \<and> cb_visibleClass (observers p1 ! h) = the_visibleClass (destructure opts)
       \<and> cb_once (observers p1 ! h) = the_once (destructure opts)"
proof (cases "window_defined ev \<and> IntersectionObserver_defined ev")
  case False
  with assms show ?thesis by (simp add: observeScrollAnimations_unsupported)
next
  case True
  let ?q = "p0\<lparr>observers := observers p0 @ [fresh_observer opts]\<rparr>"
  from True assms obtain els where h: "h = length (observers p0)"
    and p1: "p1 = fold (observe h) els ?q"
    by (auto simp add: observeScrollAnimations_supported split: sum.splits)
  have "h < length (observers ?q)" using h by simp
  from fold_observe_closure [OF this, of els] h p1 show ?thesis
    by (simp add: fold_observe_length fresh_observer_def)
qed

section \<open>Runs on the small document\<close>

lemma demo_call:
  "observeScrollAnimations browser demo_qsa demo_page ''.fade'' no_options = (Inr (Some 0), demo_watched)"
  by (simp add: demo_watched_def observeScrollAnimations_supported browser_def demo_qsa_def
        demo_page_def)

lemma demo_watched_observers:
  "observers demo_watched =
     [\<lparr>init = \<lparr>init_threshold = 0.2, init_rootMargin = ''0px 0px -50px 0px''\<rparr>,
       cb_visibleClass = ''visible'', cb_once = True, targets = [0, 1]\<rparr>]"
  by (simp add: demo_watched_def observeScrollAnimations_supported browser_def demo_qsa_def
        demo_page_def fresh_observer_def observe_def destructure_def no_options_def)

lemma demo_watched_classList: "classList demo_watched = classList demo_page"
  by (simp add: demo_watched_def observeScrollAnimations_classList)

lemma demo_repeat_call:
  "observeScrollAnimations browser demo_qsa demo_page ''.fade'' (no_options\<lparr>once := Some False\<rparr>)
     = (Inr (Some 0), demo_repeat)"
  by (simp add: demo_repeat_def observeScrollAnimations_supported browser_def demo_qsa_def
        demo_page_def)

lemma demo_repeat_observers:
  "observers demo_repeat =
     [\<lparr>init = \<lparr>init_threshold = 0.2, init_rootMargin = ''0px 0px -50px 0px''\<rparr>,
       cb_visibleClass = ''visible'', cb_once = False, targets = [0, 1]\<rparr>]"
  by (simp add: demo_repeat_def observeScrollAnimations_supported browser_def demo_qsa_def
        demo_page_def fresh_observer_def observe_def destructure_def no_options_def)

lemma demo_repeat_classList: "classList demo_repeat = classList demo_page"
  by (simp add: demo_repeat_def observeScrollAnimations_classList)


lemma valid_token_visible: "valid_token ''visible''"
  by (simp add: valid_token_def ascii_whitespace_def)

lemma invalid_token_fade_in: "\<not> valid_token ''fade in''"
  by (simp add: valid_token_def ascii_whitespace_def)

lemma demo_shouting_call:
  "observeScrollAnimations browser demo_qsa demo_page ''.fade'' shouting_options
     = (Inr (Some 0), demo_shouting)"
  by (simp add: demo_shouting_def observeScrollAnimations_supported browser_def demo_qsa_def
        demo_page_def)

lemma demo_shouting_observers:
  "observers demo_shouting =
     [\<lparr>init = \<lparr>init_threshold = 0.2, init_rootMargin = ''0px 0px -50px 0px''\<rparr>,
       cb_visibleClass = ''fade in'', cb_once = True, targets = [0, 1]\<rparr>]"
  by (simp add: demo_shouting_def observeScrollAnimations_supported browser_def demo_qsa_def
        demo_page_def fresh_observer_def observe_def destructure_def shouting_options_def)

lemma demo_shouting_classList: "classList demo_shouting = classList demo_page"
  by (simp add: demo_shouting_def observeScrollAnimations_classList)

lemma demo_shouting_repeat_call:
  "observeScrollAnimations browser demo_qsa demo_page ''.fade'' (shouting_options\<lparr>once := Some False\<rparr>)
     = (Inr (Some 0), demo_shouting_repeat)"
  by (simp add: demo_shouting_repeat_def observeScrollAnimations_supported browser_def demo_qsa_def
        demo_page_def)

lemma demo_shouting_repeat_observers:
  "observers demo_shouting_repeat =
     [\<lparr>init = \<lparr>init_threshold = 0.2, init_rootMargin = ''0px 0px -50px 0px''\<rparr>,
       cb_visibleClass = ''fade in'', cb_once = False, targets = [0, 1]\<rparr>]"
  by (simp add: demo_shouting_repeat_def observeScrollAnimations_supported browser_def demo_qsa_def
        demo_page_def fresh_observer_def observe_def destructure_def shouting_options_def)

lemma demo_shouting_repeat_classList: "classList demo_shouting_repeat = classList demo_page"
  by (simp add: demo_shouting_repeat_def observeScrollAnimations_classList)

section \<open>The map of observeMultiple\<close>



lemma map_observe_classList:
  "classList (snd (map_observe qsa p xs)) = classList p"
proof (induction xs arbitrary: p)
  case Nil
  show ?case by simp
next
  case (Cons x xs)
  obtain ev c where x: "x = (ev, c)" by (cases x)
  obtain r p' where o: "observeScrollAnimations ev qsa p (selector c) (options_argument (options c)) = (r, p')"
    by (cases "observeScrollAnimations ev qsa p (selector c) (options_argument (options c))")
  have cl: "classList p' = classList p"
    using observeScrollAnimations_classList [of ev qsa p "selector c" "options_argument (options c)"]
    by (simp add: o)
  show ?case
  proof (cases r)
    case (Inl err)
    then show ?thesis by (simp add: x o cl)
  next
    case (Inr v)
    obtain r2 q where m: "map_observe qsa p' xs = (r2, q)"
      by (cases "map_observe qsa p' xs")
    have "classList (snd (map_observe qsa p' xs)) = classList p"
      by (simp add: Cons.IH cl)
    then have "classList q = classList p" by (simp add: m)
    then show ?thesis
      by (cases r2) (simp_all add: x o Inr m)
  qed
qed





section \<open>The claims\<close>

text \<open>
  C1, as stated, fails for a \<^verbatim>\<open>visibleClass\<close> that is not a valid class token: with
  \<^verbatim>\<open>'fade in'\<close> the callback raises at \<^verbatim>\<open>classList.add\<close> for the first intersecting
  entry, the class is not added and, \<^verbatim>\<open>once\<close> being true, the element is still observed.
\<close>

theorem tick_adds_class_and_unobserves_counterexample:
  "observeScrollAnimations browser demo_qsa demo_page ''.fade'' shouting_options
     = (Inr (Some 0), demo_shouting)
   \<and> the_visibleClass (destructure shouting_options) = ''fade in''
   \<and> the_once (destructure shouting_options)
   \<and> \<lparr>target = 0, isIntersecting = True\<rparr> \<in> set (reported 0 demo_shouting demo_entries)
   \<and> fst (callback ''fade in'' True 0 (reported 0 demo_shouting demo_entries) demo_shouting)
       = Some (DOMException ''InvalidCharacterError'' ''fade in'')
   \<and> ''fade in'' \<notin> set (classList (tick 0 demo_entries demo_shouting) 0)
   \<and> 0 \<in> set (targets (observers (tick 0 demo_entries demo_shouting) ! 0))"
proof -
  have a: "reported 0 demo_shouting demo_entries = demo_entries"
    by (simp add: reported_def demo_shouting_observers demo_entries_def)
  have b: "callback ''fade in'' True 0 demo_entries demo_shouting
             = (Some (DOMException ''InvalidCharacterError'' ''fade in''), demo_shouting)"
    by (simp add: demo_entries_def on_entry_def classList_add_def token_add_def ascii_whitespace_def)
  have c: "tick 0 demo_entries demo_shouting = demo_shouting"
    by (simp add: tick_def a b demo_shouting_observers)
  have 1: "observeScrollAnimations browser demo_qsa demo_page ''.fade'' shouting_options
             = (Inr (Some 0), demo_shouting)"
    by (rule demo_shouting_call)
  have 2: "the_visibleClass (destructure shouting_options) = ''fade in''"
    and 3: "the_once (destructure shouting_options)"
    by (simp_all add: destructure_def shouting_options_def)
  have 4: "\<lparr>target = 0, isIntersecting = True\<rparr> \<in> set (reported 0 demo_shouting demo_entries)"
    unfolding a by (simp add: demo_entries_def)
  have 5: "fst (callback ''fade in'' True 0 (reported 0 demo_shouting demo_entries) demo_shouting)
             = Some (DOMException ''InvalidCharacterError'' ''fade in'')"
    unfolding a b by simp
  have 6: "''fade in'' \<notin> set (classList (tick 0 demo_entries demo_shouting) 0)"
    unfolding c by (simp add: demo_shouting_classList demo_page_def)
  have 7: "0 \<in> set (targets (observers (tick 0 demo_entries demo_shouting) ! 0))"
    unfolding c by (simp add: demo_shouting_observers)
  from 1 2 3 4 5 6 7 show ?thesis
    by (intro conjI)
qed

text \<open>
  C1, amended. Let \<^verbatim>\<open>observeScrollAnimations\<close> have returned the observer \<open>h\<close> with a
  resolved \<^verbatim>\<open>visibleClass\<close> that is a valid class token (not empty, no ASCII whitespace),
  and let any history of ticks and further calls follow. In every tick then delivered to
  \<open>h\<close> the callback returns without raising, and each reported entry that is intersecting
  has the resolved \<^verbatim>\<open>visibleClass\<close> added to its target's class list by the platform's
  set-add (the list is unchanged when the class is already there); and when the resolved
  \<^verbatim>\<open>once\<close> is true, the target is no longer among the observer's targets after the
  tick, so that no later tick of \<open>h\<close>, after any further history, reports an entry for
  that element.
\<close>

theorem tick_adds_class_and_unobserves:
  assumes created: "observeScrollAnimations ev qsa p0 sel opts = (Inr (Some h), p1)"
      and valid: "valid_token (the_visibleClass (destructure opts))"
      and later: "p = run qsa history p1"
      and rep: "e \<in> set (reported h p es)"
      and int: "isIntersecting e"
  shows "fst (callback (the_visibleClass (destructure opts)) (the_once (destructure opts)) h
                (reported h p es) p) = None
       \<and> token_add (the_visibleClass (destructure opts)) (classList p (target e))
           = Inr (classList (tick h es p) (target e))
       \<and> the_visibleClass (destructure opts) \<in> set (classList (tick h es p) (target e))
       \<and> (the_visibleClass (destructure opts) \<in> set (classList p (target e)) \<longrightarrow>
            classList (tick h es p) (target e) = classList p (target e))
       \<and> (the_once (destructure opts) \<longrightarrow>
            target e \<notin> set (targets (observers (tick h es p) ! h))
            \<and> (\<forall>afterwards es'. \<forall>e' \<in> set (reported h (run qsa afterwards (tick h es p)) es').
                  target e' \<noteq> target e))"
proof -
  note c = created_observer [OF created]
  have h1: "h < length (observers p1)" using c by simp
  have h: "h < length (observers p)"
    using h1 run_length [of p1 qsa history] by (simp add: later)
  have vc: "cb_visibleClass (observers p ! h) = the_visibleClass (destructure opts)"
    and on: "cb_once (observers p ! h) = the_once (destructure opts)"
    using run_closure [OF h1, of qsa history] c by (auto simp add: later)
  have quiet: "fst (callback (the_visibleClass (destructure opts)) (the_once (destructure opts)) h
                (reported h p es) p) = None"
    using valid by (rule callback_valid_returns)
  have hit: "target e \<in> hit (reported h p es)"
    using rep int by (auto simp add: hit_def)
  have cl: "classList (tick h es p) (target e) =
              append_token (the_visibleClass (destructure opts)) (classList p (target e))"
    using h hit vc valid by (simp add: tick_classList)
  have add: "token_add (the_visibleClass (destructure opts)) (classList p (target e))
               = Inr (classList (tick h es p) (target e))"
    using valid by (simp add: cl token_add_valid)
  have gone: "target e \<notin> set (targets (observers (tick h es p) ! h))"
    if "the_once (destructure opts)"
    using that h hit on vc valid by (simp add: tick_same)
  have never: "target e' \<noteq> target e"
    if "the_once (destructure opts)" and "e' \<in> set (reported h (run qsa afterwards (tick h es p)) es')"
    for afterwards es' e'
  proof -
    have "h < length (observers (tick h es p))" using h by (simp add: tick_length)
    from run_targets_subset [OF this, of qsa afterwards] gone [OF that(1)]
    have "target e \<notin> set (targets (observers (run qsa afterwards (tick h es p)) ! h))"
      by auto
    with that(2) show ?thesis
      by (auto simp add: reported_def split: if_splits)
  qed
  have present: "the_visibleClass (destructure opts) \<in> set (classList (tick h es p) (target e))"
    by (simp add: cl append_token_set)
  have same: "the_visibleClass (destructure opts) \<in> set (classList p (target e)) \<longrightarrow>
            classList (tick h es p) (target e) = classList p (target e)"
    by (simp add: cl append_token_present)
  from quiet add present same gone never show ?thesis
    by blast
qed

theorem tick_adds_class_and_unobserves_witness:
  "observeScrollAnimations browser demo_qsa demo_page ''.fade'' no_options = (Inr (Some 0), demo_watched)
   \<and> valid_token (the_visibleClass (destructure no_options))
   \<and> \<lparr>target = 0, isIntersecting = True\<rparr> \<in> set (reported 0 demo_watched demo_entries)
   \<and> classList demo_watched 0 = [''fade'']
   \<and> classList (tick 0 demo_entries demo_watched) 0 = [''fade'', ''visible'']
   \<and> 0 \<notin> set (targets (observers (tick 0 demo_entries demo_watched) ! 0))
   \<and> reported 0 (tick 0 demo_entries demo_watched) demo_entries = [\<lparr>target = 1, isIntersecting = False\<rparr>]"
proof -
  have a: "observeScrollAnimations browser demo_qsa demo_page ''.fade'' no_options
             = (Inr (Some 0), demo_watched)"
    by (rule demo_call)
  have v: "valid_token (the_visibleClass (destructure no_options))"
    by (simp add: destructure_def no_options_def valid_token_visible)
  have b: "demo_watched = run demo_qsa [] demo_watched"
    by (simp add: run_Nil)
  have c: "\<lparr>target = 0, isIntersecting = True\<rparr> \<in> set (reported 0 demo_watched demo_entries)"
    by (simp add: reported_def demo_watched_observers demo_entries_def)
  have d: "isIntersecting \<lparr>target = 0, isIntersecting = True\<rparr>"
    by simp
  have e: "classList demo_watched 0 = [''fade'']"
    by (simp add: demo_watched_classList demo_page_def)
  have f: "reported 0 (tick 0 demo_entries demo_watched) demo_entries
             = [\<lparr>target = 1, isIntersecting = False\<rparr>]"
    by (simp add: reported_def tick_length tick_same hit_Cons hit_Nil demo_watched_observers
          demo_entries_def valid_token_visible)
  have g: "token_add ''visible'' [''fade''] = Inr [''fade'', ''visible'']"
    by (simp add: token_add_valid valid_token_visible append_token_def)
  from tick_adds_class_and_unobserves [OF a v b c d] a v c e f g show ?thesis
    by (simp add: destructure_def no_options_def)
qed

text \<open>
  C2. When \<^verbatim>\<open>window\<close> or \<^verbatim>\<open>IntersectionObserver\<close> is undefined,
  \<^verbatim>\<open>observeScrollAnimations\<close> returns \<^verbatim>\<open>null\<close> and leaves the page exactly as it was,
  whatever the selector, the options and the selector engine: no observer is constructed,
  no element is registered and no class list changes.
\<close>

theorem unsupported_environment_returns_null:
  assumes "\<not> window_defined ev \<or> \<not> IntersectionObserver_defined ev"
  shows "observeScrollAnimations ev qsa p sel opts = (Inr None, p)"
  using assms by (rule observeScrollAnimations_unsupported)

theorem unsupported_environment_returns_null_witness:
  "\<not> window_defined server
   \<and> observeScrollAnimations server demo_qsa demo_page ''*'' no_options = (Inr None, demo_page)"
  using unsupported_environment_returns_null [of server demo_qsa demo_page "''*''" no_options]
  by (simp add: server_def)



text \<open>
  C4. The destructuring gives every field left out of the options its default
  (\<^verbatim>\<open>threshold\<close> 0.2, \<^verbatim>\<open>rootMargin\<close> \<^verbatim>\<open>'0px 0px -50px 0px'\<close>, \<^verbatim>\<open>visibleClass\<close>
  \<^verbatim>\<open>'visible'\<close>, \<^verbatim>\<open>once\<close> true) and every supplied field its supplied value; in a
  supported environment these resolved values are the ones the constructed observer and
  its callback work with.
\<close>

theorem unspecified_options_take_defaults:
  "destructure no_options =
     \<lparr>the_threshold = 0.2, the_rootMargin = ''0px 0px -50px 0px'',
      the_visibleClass = ''visible'', the_once = True\<rparr>
   \<and> the_threshold (destructure opts) = (case threshold opts of None \<Rightarrow> 0.2 | Some v \<Rightarrow> v)
   \<and> the_rootMargin (destructure opts) =
        (case rootMargin opts of None \<Rightarrow> ''0px 0px -50px 0px'' | Some v \<Rightarrow> v)
   \<and> the_visibleClass (destructure opts) =
        (case visibleClass opts of None \<Rightarrow> ''visible'' | Some v \<Rightarrow> v)
   \<and> the_once (destructure opts) = (case once opts of None \<Rightarrow> True | Some v \<Rightarrow> v)
   \<and> (window_defined ev \<and> IntersectionObserver_defined ev \<longrightarrow>
        init (observers (snd (observeScrollAnimations ev qsa p sel opts)) ! length (observers p)) =
          \<lparr>init_threshold = the_threshold (destructure opts),
           init_rootMargin = the_rootMargin (destructure opts)\<rparr>
        \<and> cb_visibleClass
            (observers (snd (observeScrollAnimations ev qsa p sel opts)) ! length (observers p)) =
          the_visibleClass (destructure opts)
        \<and> cb_once
            (observers (snd (observeScrollAnimations ev qsa p sel opts)) ! length (observers p)) =
          the_once (destructure opts))"
proof -
  let ?ob = "observers (snd (observeScrollAnimations ev qsa p sel opts)) ! length (observers p)"
  have made: "init ?ob = init (fresh_observer opts)
           \<and> cb_visibleClass ?ob = cb_visibleClass (fresh_observer opts)
           \<and> cb_once ?ob = cb_once (fresh_observer opts)"
    if "window_defined ev \<and> IntersectionObserver_defined ev"
  proof -
    have "?ob = fresh_observer opts \<or>
          (\<exists>els. ?ob = observers (fold (observe (length (observers p))) els
                      (p\<lparr>observers := observers p @ [fresh_observer opts]\<rparr>)) ! length (observers p))"
      using that by (auto simp add: observeScrollAnimations_supported split: sum.split)
    then show ?thesis
      by (auto simp add: fold_observe_closure)
  qed
  have defaults: "destructure no_options =
     \<lparr>the_threshold = 0.2, the_rootMargin = ''0px 0px -50px 0px'',
      the_visibleClass = ''visible'', the_once = True\<rparr>"
    by (simp add: destructure_def no_options_def)
  from made defaults show ?thesis
    by (simp add: fresh_observer_def destructure_def)
qed

theorem unspecified_options_take_defaults_witness:
  "window_defined browser \<and> IntersectionObserver_defined browser
   \<and> init (observers (snd (observeScrollAnimations browser demo_qsa demo_page ''.fade'' demo_options)) ! 0)
       = \<lparr>init_threshold = 0.5, init_rootMargin = ''0px 0px -50px 0px''\<rparr>
   \<and> cb_visibleClass
         (observers (snd (observeScrollAnimations browser demo_qsa demo_page ''.fade'' demo_options)) ! 0)
       = ''shown''
   \<and> cb_once
         (observers (snd (observeScrollAnimations browser demo_qsa demo_page ''.fade'' demo_options)) ! 0)
   \<and> the_threshold (destructure demo_options) = 0.5
   \<and> the_rootMargin (destructure demo_options) = ''0px 0px -50px 0px''
   \<and> the_visibleClass (destructure demo_options) = ''shown''
   \<and> the_once (destructure demo_options)"
proof -
  have a: "window_defined browser \<and> IntersectionObserver_defined browser"
    by (simp add: browser_def)
  have b: "length (observers demo_page) = 0"
    by (simp add: demo_page_def)
  have c: "threshold demo_options = Some 0.5" "rootMargin demo_options = None"
    "visibleClass demo_options = Some ''shown''" "once demo_options = None"
    by (simp_all add: demo_options_def)
  from unspecified_options_take_defaults [of demo_options browser demo_qsa demo_page "''.fade''"] a
  show ?thesis
    by (simp add: b c)
qed

text \<open>
  C5, as stated, fails in its promise that the class is re-added on every intersecting
  tick: with \<^verbatim>\<open>once: false\<close> and the \<^verbatim>\<open>visibleClass\<close> \<^verbatim>\<open>'fade in'\<close> the callback raises
  on each such tick and the class is never on the element.
\<close>

theorem class_is_never_removed_counterexample:
  "observeScrollAnimations browser demo_qsa demo_page ''.fade'' (shouting_options\<lparr>once := Some False\<rparr>)
     = (Inr (Some 0), demo_shouting_repeat)
   \<and> the_visibleClass (destructure (shouting_options\<lparr>once := Some False\<rparr>)) = ''fade in''
   \<and> \<lparr>target = 0, isIntersecting = True\<rparr> \<in> set (reported 0 demo_shouting_repeat demo_entries)
   \<and> ''fade in'' \<notin> set (classList (tick 0 demo_entries demo_shouting_repeat) 0)
   \<and> ''fade in'' \<notin> set (classList (tick 0 demo_entries (tick 0 demo_entries demo_shouting_repeat)) 0)"
proof -
  have a: "reported 0 demo_shouting_repeat demo_entries = demo_entries"
    by (simp add: reported_def demo_shouting_repeat_observers demo_entries_def)
  have b: "tick 0 demo_entries demo_shouting_repeat = demo_shouting_repeat"
    by (simp add: tick_def callback_invalid demo_shouting_repeat_observers invalid_token_fade_in)
  have 1: "observeScrollAnimations browser demo_qsa demo_page ''.fade''
             (shouting_options\<lparr>once := Some False\<rparr>) = (Inr (Some 0), demo_shouting_repeat)"
    by (rule demo_shouting_repeat_call)
  have 2: "the_visibleClass (destructure (shouting_options\<lparr>once := Some False\<rparr>)) = ''fade in''"
    by (simp add: destructure_def shouting_options_def)
  have 3: "\<lparr>target = 0, isIntersecting = True\<rparr> \<in> set (reported 0 demo_shouting_repeat demo_entries)"
    unfolding a by (simp add: demo_entries_def)
  have 4: "''fade in'' \<notin> set (classList (tick 0 demo_entries demo_shouting_repeat) 0)"
    unfolding b by (simp add: demo_shouting_repeat_classList demo_page_def)
  have 5: "''fade in'' \<notin> set (classList (tick 0 demo_entries
                                           (tick 0 demo_entries demo_shouting_repeat)) 0)"
    unfolding b by (simp add: demo_shouting_repeat_classList demo_page_def)
  from 1 2 3 4 5 show ?thesis
    by (intro conjI)
qed

text \<open>
  C5, amended. No history of ticks and calls removes a class from any element: a class
  present stays present. A tick that reports no intersecting entry leaves the page, and so
  every class list, unchanged. For a watcher created with \<^verbatim>\<open>once: false\<close>, a tick with an
  intersecting reported entry leaves every observer's targets as they were, so the element
  is still observed; if the class was already on the element the class list is unchanged;
  and when the resolved \<^verbatim>\<open>visibleClass\<close> is a valid class token (not empty, no ASCII
  whitespace) the class is on the element afterwards.
\<close>

theorem class_is_never_removed:
  "(c \<in> set (classList p el) \<longrightarrow> c \<in> set (classList (run qsa history p) el))
   \<and> ((\<forall>e \<in> set (reported h p es). \<not> isIntersecting e) \<longrightarrow> tick h es p = p)
   \<and> (observeScrollAnimations ev qsa p0 sel opts = (Inr (Some h), p1)
        \<and> once opts = Some False \<and> p = run qsa earlier p1
        \<and> e \<in> set (reported h p es) \<and> isIntersecting e \<longrightarrow>
          observers (tick h es p) = observers p
        \<and> target e \<in> set (targets (observers (tick h es p) ! h))
        \<and> (the_visibleClass (destructure opts) \<in> set (classList p (target e)) \<longrightarrow>
             classList (tick h es p) (target e) = classList p (target e))
        \<and> (valid_token (the_visibleClass (destructure opts)) \<longrightarrow>
             the_visibleClass (destructure opts) \<in> set (classList (tick h es p) (target e))))"
proof -
  have mono: "c \<in> set (classList p el) \<longrightarrow> c \<in> set (classList (run qsa history p) el)"
    by (simp add: run_classList_mono)
  have quiet: "(\<forall>e \<in> set (reported h p es). \<not> isIntersecting e) \<longrightarrow> tick h es p = p"
    by (simp add: tick_no_intersecting)
  have again: "observers (tick h es p) = observers p
        \<and> target e \<in> set (targets (observers (tick h es p) ! h))
        \<and> (the_visibleClass (destructure opts) \<in> set (classList p (target e)) \<longrightarrow>
             classList (tick h es p) (target e) = classList p (target e))
        \<and> (valid_token (the_visibleClass (destructure opts)) \<longrightarrow>
             the_visibleClass (destructure opts) \<in> set (classList (tick h es p) (target e)))"
    if created: "observeScrollAnimations ev qsa p0 sel opts = (Inr (Some h), p1)"
      and off: "once opts = Some False" and later: "p = run qsa earlier p1"
      and rep: "e \<in> set (reported h p es)" and int: "isIntersecting e"
  proof -
    note c = created_observer [OF created]
    have h1: "h < length (observers p1)" using c by simp
    have h: "h < length (observers p)"
      using h1 run_length [of p1 qsa earlier] by (simp add: later)
    have vc: "cb_visibleClass (observers p ! h) = the_visibleClass (destructure opts)"
      and on: "cb_once (observers p ! h) = the_once (destructure opts)"
      using run_closure [OF h1, of qsa earlier] c by (auto simp add: later)
    have "\<not> the_once (destructure opts)" using off by (simp add: destructure_def)
    with on have keep: "observers (tick h es p) = observers p"
      using h by (simp add: tick_def callback_keep)
    have obs: "target e \<in> set (targets (observers p ! h))"
      using rep by (auto simp add: reported_def split: if_splits)
    have "target e \<in> hit (reported h p es)"
      using rep int by (auto simp add: hit_def)
    then have cl: "classList (tick h es p) (target e) =
                (if valid_token (the_visibleClass (destructure opts))
                 then append_token (the_visibleClass (destructure opts)) (classList p (target e))
                 else classList p (target e))"
      using h vc by (simp add: tick_classList)
    from keep obs cl show ?thesis
      by (auto simp add: append_token_set append_token_present)
  qed
  from mono quiet again show ?thesis by blast
qed

theorem class_is_never_removed_witness:
  "observeScrollAnimations browser demo_qsa demo_page ''.fade'' (no_options\<lparr>once := Some False\<rparr>)
     = (Inr (Some 0), demo_repeat)
   \<and> \<lparr>target = 0, isIntersecting = True\<rparr> \<in> set (reported 0 demo_repeat demo_entries)
   \<and> classList (tick 0 demo_entries demo_repeat) 0 = [''fade'', ''visible'']
   \<and> targets (observers (tick 0 demo_entries demo_repeat) ! 0) = [0, 1]
   \<and> classList (tick 0 demo_entries (tick 0 demo_entries demo_repeat)) 0 = [''fade'', ''visible'']
   \<and> classList (tick 0 [\<lparr>target = 0, isIntersecting = False\<rparr>] (tick 0 demo_entries demo_repeat)) 0
       = [''fade'', ''visible'']
   \<and> ''visible'' \<in> set (classList (run demo_qsa [Tick 0 [\<lparr>target = 0, isIntersecting = False\<rparr>],
                                                 Tick 0 demo_entries]
                                      (tick 0 demo_entries demo_repeat)) 0)"
proof -
  let ?p = "tick 0 demo_entries demo_repeat"
  have a: "observeScrollAnimations browser demo_qsa demo_page ''.fade''
             (no_options\<lparr>once := Some False\<rparr>) = (Inr (Some 0), demo_repeat)"
    by (rule demo_repeat_call)
  have b: "\<lparr>target = 0, isIntersecting = True\<rparr> \<in> set (reported 0 demo_repeat demo_entries)"
    by (simp add: reported_def demo_repeat_observers demo_entries_def)
  have c: "classList ?p 0 = [''fade'', ''visible'']"
    by (simp add: tick_classList reported_def hit_Cons hit_Nil demo_repeat_observers
          demo_repeat_classList demo_entries_def demo_page_def append_token_def
          valid_token_visible)
  have d: "observers ?p = observers demo_repeat"
    by (simp add: tick_def callback_keep demo_repeat_observers)
  have e: "\<lparr>target = 0, isIntersecting = True\<rparr> \<in> set (reported 0 ?p demo_entries)"
    unfolding reported_def d by (simp add: demo_repeat_observers demo_entries_def)
  have f: "once (no_options\<lparr>once := Some False\<rparr>) = Some False"
    by simp
  have g: "?p = run demo_qsa [Tick 0 demo_entries] demo_repeat"
    by (simp add: run_def)
  have i: "isIntersecting \<lparr>target = 0, isIntersecting = True\<rparr>"
    by simp
  have j: "\<forall>e \<in> set (reported 0 ?p [\<lparr>target = 0, isIntersecting = False\<rparr>]). \<not> isIntersecting e"
    by (simp add: reported_def)
  have k: "''visible'' \<in> set (classList ?p 0)"
    by (simp add: c)
  note t = class_is_never_removed
             [where c = "''visible''" and p = ?p and el = 0 and qsa = demo_qsa
                and history = "[Tick 0 [\<lparr>target = 0, isIntersecting = False\<rparr>],
                                Tick 0 demo_entries]"
                and es = "[\<lparr>target = 0, isIntersecting = False\<rparr>]" and h = 0]
  note u = class_is_never_removed
             [where c = "''visible''" and p = ?p and el = 0 and qsa = demo_qsa
                and history = "[]" and es = demo_entries and h = 0 and ev = browser
                and ?p0.0 = demo_page and sel = "''.fade''"
                and opts = "no_options\<lparr>once := Some False\<rparr>" and ?p1.0 = demo_repeat
                and earlier = "[Tick 0 demo_entries]"
                and e = "\<lparr>target = 0, isIntersecting = True\<rparr>"]
  have l: "classList (tick 0 demo_entries ?p) 0 = classList ?p 0"
    using u a f g e i k by (simp add: destructure_def no_options_def)
  have m: "tick 0 [\<lparr>target = 0, isIntersecting = False\<rparr>] ?p = ?p"
    using t j by blast
  have n: "''visible'' \<in> set (classList (run demo_qsa [Tick 0 [\<lparr>target = 0, isIntersecting = False\<rparr>],
                                                 Tick 0 demo_entries] ?p) 0)"
    using t k by blast
  from a b c d l m n show ?thesis
    by (simp add: demo_repeat_observers)
qed







text \<open>
  C9. The environment check comes before the selector query: in an unsupported
  environment the call returns \<^verbatim>\<open>null\<close> even for a selector the engine rejects, the
  rejection is not raised, and the outcome is the same for every selector engine, so the
  selector is never evaluated.
\<close>

theorem environment_check_precedes_selector_query:
  assumes "\<not> window_defined ev \<or> \<not> IntersectionObserver_defined ev"
      and "qsa (classList p) sel = Inl err"
  shows "fst (observeScrollAnimations ev qsa p sel opts) = Inr None
       \<and> fst (observeScrollAnimations ev qsa p sel opts) \<noteq> Inl err
       \<and> observeScrollAnimations ev qsa p sel opts = observeScrollAnimations ev qsa' p sel opts"
  using assms(1) by (simp add: observeScrollAnimations_unsupported)

theorem environment_check_precedes_selector_query_witness:
  "window_defined no_observer_api \<and> \<not> IntersectionObserver_defined no_observer_api
   \<and> demo_qsa (classList demo_page) ''div['' = Inl (DOMException ''SyntaxError'' ''div['')
   \<and> fst (observeScrollAnimations no_observer_api demo_qsa demo_page ''div['' no_options) = Inr None"
  using environment_check_precedes_selector_query
          [of no_observer_api demo_qsa demo_page "''div[''" "DOMException ''SyntaxError'' ''div[''"
              no_options demo_qsa]
  by (simp add: no_observer_api_def demo_qsa_def)

text \<open>
  C10. In every invocation of the callback, an entry that is not intersecting leaves the
  page as it is and raises nothing, and the batch has the same effect and outcome as its
  intersecting entries alone. An element that no intersecting entry of the batch targets
  keeps its class list and is observed afterwards by exactly the observers that observed
  it before; with \<^verbatim>\<open>once\<close> true, an intersecting entry changes the registration of
  its own target only. Observers other than the callback's own are untouched.
\<close>

theorem non_intersecting_entries_have_no_effect:
  "(\<not> isIntersecting e \<longrightarrow> on_entry vc on h e p = (None, p))
   \<and> callback vc on h es p = callback vc on h (filter isIntersecting es) p
   \<and> ((\<forall>x \<in> set es. isIntersecting x \<longrightarrow> target x \<noteq> el) \<longrightarrow>
         classList (snd (callback vc on h es p)) el = classList p el
       \<and> (\<forall>k < length (observers p).
             (el \<in> set (targets (observers (snd (callback vc on h es p)) ! k)))
               = (el \<in> set (targets (observers p ! k)))))
   \<and> (isIntersecting e \<and> el \<noteq> target e \<longrightarrow>
         classList (snd (on_entry vc True h e p)) el = classList p el
       \<and> (\<forall>k < length (observers p).
             (el \<in> set (targets (observers (snd (on_entry vc True h e p)) ! k)))
               = (el \<in> set (targets (observers p ! k)))))
   \<and> (\<forall>k. k \<noteq> h \<longrightarrow> observers (snd (callback vc on h es p)) ! k = observers p ! k)"
proof -
  have one: "\<not> isIntersecting e \<longrightarrow> on_entry vc on h e p = (None, p)"
    by (simp add: on_entry_quiet)
  have filt: "callback vc on h es p = callback vc on h (filter isIntersecting es) p"
    by (simp add: callback_filter)
  have frame: "classList (snd (callback vc on h es p)) el = classList p el
       \<and> (\<forall>k < length (observers p).
             (el \<in> set (targets (observers (snd (callback vc on h es p)) ! k)))
               = (el \<in> set (targets (observers p ! k))))"
    if "\<forall>x \<in> set es. isIntersecting x \<longrightarrow> target x \<noteq> el"
  proof -
    from that have nohit: "el \<notin> hit es" by (auto simp add: hit_def)
    have "(el \<in> set (targets (observers (snd (callback vc on h es p)) ! k)))
            = (el \<in> set (targets (observers p ! k)))" if "k < length (observers p)" for k
    proof (cases "k = h")
      case True
      with that nohit show ?thesis by (simp add: callback_same)
    next
      case False
      then show ?thesis by (simp add: callback_other)
    qed
    with nohit show ?thesis by (simp add: callback_classList)
  qed
  have single: "classList (snd (on_entry vc True h e p)) el = classList p el
       \<and> (\<forall>k < length (observers p).
             (el \<in> set (targets (observers (snd (on_entry vc True h e p)) ! k)))
               = (el \<in> set (targets (observers p ! k))))"
    if "isIntersecting e \<and> el \<noteq> target e"
  proof -
    have "(el \<in> set (targets (observers (snd (on_entry vc True h e p)) ! k)))
            = (el \<in> set (targets (observers p ! k)))" if "k < length (observers p)" for k
    proof (cases "k = h")
      case True
      with that \<open>isIntersecting e \<and> el \<noteq> target e\<close> show ?thesis by (simp add: on_entry_same)
    next
      case False
      then show ?thesis by (simp add: on_entry_other)
    qed
    with that show ?thesis by (simp add: on_entry_classList)
  qed
  have others: "\<forall>k. k \<noteq> h \<longrightarrow> observers (snd (callback vc on h es p)) ! k = observers p ! k"
    by (simp add: callback_other)
  from one filt frame single others show ?thesis by blast
qed

theorem non_intersecting_entries_have_no_effect_witness:
  "classList (snd (callback ''visible'' True 0 demo_entries demo_watched)) 0 = [''fade'', ''visible'']
   \<and> classList (snd (callback ''visible'' True 0 demo_entries demo_watched)) 1 = classList demo_watched 1
   \<and> classList demo_watched 1 = [''fade'', ''big'']
   \<and> targets (observers demo_watched ! 0) = [0, 1]
   \<and> targets (observers (snd (callback ''visible'' True 0 demo_entries demo_watched)) ! 0) = [1]
   \<and> on_entry ''visible'' True 0 \<lparr>target = 1, isIntersecting = False\<rparr> demo_watched
       = (None, demo_watched)
   \<and> 1 \<in> set (targets (observers (snd (on_entry ''visible'' True 0 \<lparr>target = 0, isIntersecting = True\<rparr>
                                      demo_watched)) ! 0))"
proof -
  note t = non_intersecting_entries_have_no_effect
             [of "\<lparr>target = 1, isIntersecting = False\<rparr>" "''visible''" True 0 demo_watched
                 demo_entries 1]
  note u = non_intersecting_entries_have_no_effect
             [of "\<lparr>target = 0, isIntersecting = True\<rparr>" "''visible''" True 0 demo_watched
                 demo_entries 1]
  have a: "\<forall>x \<in> set demo_entries. isIntersecting x \<longrightarrow> target x \<noteq> 1"
    by (simp add: demo_entries_def)
  have b: "classList (snd (callback ''visible'' True 0 demo_entries demo_watched)) 1 = classList demo_watched 1"
    using t a by blast
  have c: "on_entry ''visible'' True 0 \<lparr>target = 1, isIntersecting = False\<rparr> demo_watched
       = (None, demo_watched)"
    using t by simp
  have d: "0 < length (observers demo_watched)" "1 \<in> set (targets (observers demo_watched ! 0))"
    by (simp_all add: demo_watched_observers)
  have e: "1 \<in> set (targets (observers (snd (on_entry ''visible'' True 0 \<lparr>target = 0, isIntersecting = True\<rparr>
                                      demo_watched)) ! 0))"
    using u d by simp
  have f: "classList (snd (callback ''visible'' True 0 demo_entries demo_watched)) 0 = [''fade'', ''visible'']"
    by (simp add: callback_classList hit_Cons hit_Nil demo_entries_def demo_watched_classList
          demo_page_def append_token_def valid_token_visible del: callback.simps)
  have g: "targets (observers (snd (callback ''visible'' True 0 demo_entries demo_watched)) ! 0) = [1]"
    by (simp add: callback_same hit_Cons hit_Nil demo_entries_def demo_watched_observers
          valid_token_visible del: callback.simps)
  have i: "classList demo_watched 1 = [''fade'', ''big'']"
    by (simp add: demo_watched_classList demo_page_def)
  from b c e f g i show ?thesis
    by (simp add: demo_watched_observers)
qed

end
